theory Spec2Isabelle
  imports Main "HOL-Library.Word" "HOL-Library.Signed_Division"
begin

unbundle bit_operations_syntax

text \<open>
  A model of the VRRP package of vrrp-simple: the packet codec, the state machine, the
  construction and start of the router, and the IP manager, each function translated
  from its Go source, followed by the properties proved of them.
\<close>

section \<open>Shared types\<close>

type_synonym byte = "8 word"

text \<open>Go's \<^verbatim>\<open>net.IP\<close> is a byte slice; the nil slice is the empty list.\<close>

type_synonym IP = "byte list"

text \<open>
  Every \<^verbatim>\<open>fmt.Errorf\<close> of the package, the index panic of \<^verbatim>\<open>calculateChecksum\<close>,
  and the error numbers the address operations of the kernel answer with.
\<close>

datatype error =
    UnsupportedVersion byte
  | PacketTooShort nat
  | InsufficientIPv4
  | InsufficientIPv6
  | IndexOutOfRange
  | InvalidVRID
  | InvalidPriority
  | InterfaceNameRequired
  | VirtualIPRequired
  | InvalidIPAddress string
  | OnlyIPv4Supported string
  | AlreadyRunning
  | FailedToInitializeNetwork error
  | FailedToStartStateMachine error
  | IPManagementNotImplemented
  | FailedToGetLink int error
  | FailedToListAddresses error
  | FailedToAddIP IP string error
  | FailedToDeleteIP IP string error
  | ENODEV
  | EPERM
  | EEXIST
  | EADDRNOTAVAIL

text \<open>\<^verbatim>\<open>net.Interface\<close>, with the two fields the package reads.\<close>

record Interface =
  Index :: int
  Name :: string

subsection \<open>Addresses in Go's standard library\<close>

text \<open>
  \<^verbatim>\<open>net.IP.To4\<close>, \<^verbatim>\<open>net.IP.To16\<close> and \<^verbatim>\<open>net.IP.Equal\<close> belong to Go's standard
  library. \<^verbatim>\<open>To4\<close> keeps a 4-byte slice, unwraps a 16-byte slice that starts with the
  IPv4-in-IPv6 prefix (ten zero bytes, then two bytes 0xff), and is nil otherwise.
  \<^verbatim>\<open>To16\<close> wraps a 4-byte slice in that prefix, keeps a 16-byte slice, and is nil
  otherwise. \<^verbatim>\<open>Equal\<close> compares slices of one length byte by byte and lets a 4-byte
  slice equal its 16-byte wrapping.
\<close>

definition v4InV6Prefix :: "byte list" where
  "v4InV6Prefix = [0, 0, 0, 0, 0, 0, 0, 0, 0, 0, 0xff, 0xff]"

definition To4 :: "IP \<Rightarrow> IP option" where
  "To4 ip =
     (if length ip = 4 then Some ip
      else if length ip = 16 \<and> take 12 ip = v4InV6Prefix then Some (drop 12 ip)
      else None)"

definition To16 :: "IP \<Rightarrow> IP option" where
  "To16 ip =
     (if length ip = 4 then Some (v4InV6Prefix @ ip)
      else if length ip = 16 then Some ip
      else None)"

definition ip_Equal :: "IP \<Rightarrow> IP \<Rightarrow> bool" where
  "ip_Equal ip x =
     (if length ip = length x then ip = x
      else if length ip = 4 \<and> length x = 16 then take 12 x = v4InV6Prefix \<and> ip = drop 12 x
      else if length ip = 16 \<and> length x = 4 then take 12 ip = v4InV6Prefix \<and> drop 12 ip = x
      else False)"

text \<open>\<^verbatim>\<open>net.IPv4(a, b, c, d)\<close> and, for a dotted quad, \<^verbatim>\<open>net.ParseIP\<close> give the 16-byte form.\<close>

definition IPv4 :: "byte \<Rightarrow> byte \<Rightarrow> byte \<Rightarrow> byte \<Rightarrow> IP" where
  "IPv4 a b c d = v4InV6Prefix @ [a, b, c, d]"

section \<open>Packet codec (src/pkg/vrrp/packet.go)\<close>

definition VRRPv2 :: byte where
  "VRRPv2 = 2"

definition VRRPv3 :: byte where
  "VRRPv3 = 3"

definition TypeAdvertisement :: byte where
  "TypeAdvertisement = 1"

record Packet =
  Version :: byte
  Type :: byte
  VRID :: byte
  Priority :: byte
  CountIPAddrs :: byte
  AuthType :: byte
  AdvInterval :: byte
  Checksum :: "16 word"
  IPAddresses :: "IP list"
  AuthData :: "byte list"

subsection \<open>NewPacket\<close>

text \<open>\<^verbatim>\<open>uint8(len(ips))\<close> keeps the low eight bits of the length.\<close>

definition NewPacket :: "byte \<Rightarrow> byte \<Rightarrow> byte \<Rightarrow> IP list \<Rightarrow> Packet" where
  "NewPacket version vrid priority ips =
     \<lparr> Version = version,
       Type = TypeAdvertisement,
       VRID = vrid,
       Priority = priority,
       CountIPAddrs = of_nat (length ips),
       AuthType = 0,
       AdvInterval = 1,
       Checksum = 0,
       IPAddresses = ips,
       AuthData = [] \<rparr>"

subsection \<open>calculateChecksum\<close>

text \<open>
  The summing loop \<^verbatim>\<open>for i := 0; i < len(temp)-1; i += 2\<close> over a \<^verbatim>\<open>uint32\<close>
  accumulator, which wraps at \<open>2 ^ 32\<close>.
\<close>

function sum_loop :: "byte list \<Rightarrow> nat \<Rightarrow> 32 word \<Rightarrow> 32 word" where
  "sum_loop temp i s =
     (if i + 1 < length temp
      then sum_loop temp (i + 2) (s + (push_bit 8 (ucast (temp ! i)) + ucast (temp ! (i + 1))))
      else s)"
  by pat_completeness auto
termination
  by (relation "measure (\<lambda>(temp, i, s). length temp - i)") auto

declare sum_loop.simps [simp del]

text \<open>The carry loop \<^verbatim>\<open>for (sum >> 16) > 0 { sum = (sum & 0xFFFF) + (sum >> 16) }\<close>.\<close>

function fold_loop :: "32 word \<Rightarrow> 32 word" where
  "fold_loop s =
     (if drop_bit 16 s > 0 then fold_loop ((s AND 0xFFFF) + drop_bit 16 s) else s)"
  by pat_completeness auto
termination
proof (relation "measure unat")
  show "wf (measure unat)" by simp
next
  fix s :: "32 word"
  assume pos: "0 < drop_bit 16 s"
  have m: "(0xFFFF :: 32 word) = mask 16" by (simp add: mask_eq_exp_minus_1)
  have "s AND 0xFFFF = take_bit 16 s" by (simp only: m take_bit_eq_mask)
  then have lo: "unat (s AND 0xFFFF) = unat s mod 65536"
    by (simp add: take_bit_eq_mod unat_mod)
  have hi: "unat (drop_bit 16 s) = unat s div 65536"
    by (simp add: drop_bit_eq_div unat_div)
  have "unat s < 4294967296" using unsigned_less [of s, where 'a = nat] by simp
  then have "unat s mod 65536 + unat s div 65536 < 4294967296" by linarith
  then have step: "unat ((s AND 0xFFFF) + drop_bit 16 s) = unat s mod 65536 + unat s div 65536"
    by (simp add: unat_word_ariths lo hi)
  have "0 < unat (drop_bit 16 s)" using pos by (simp add: word_less_nat_alt)
  then have one: "1 \<le> unat s div 65536" by (simp add: hi)
  have "unat s = 65536 * (unat s div 65536) + unat s mod 65536" by simp
  then have "unat s mod 65536 + unat s div 65536 < unat s" using one by linarith
  then show "((s AND 0xFFFF) + drop_bit 16 s, s) \<in> measure unat"
    by (simp add: step)
qed

declare fold_loop.simps [simp del]

text \<open>
  \<^verbatim>\<open>temp[6] = 0\<close> panics on a slice shorter than eight bytes (seven would pass
  index 6 and fail at index 7), so the function returns an error there. A trailing odd
  byte is added as the high byte of a word, and \<^verbatim>\<open>uint16(^sum)\<close> keeps the low
  sixteen bits of the complement.
\<close>

definition calculateChecksum :: "byte list \<Rightarrow> error + 16 word" where
  "calculateChecksum data =
     (if length data < 8 then Inl IndexOutOfRange
      else
        let temp = data[6 := 0, 7 := 0];
            s = sum_loop temp 0 0;
            s = (if length temp mod 2 \<noteq> 0
                 then s + push_bit 8 (ucast (temp ! (length temp - 1)))
                 else s);
            s = fold_loop s
        in Inr (ucast (NOT s)))"

subsection \<open>Marshal\<close>

text \<open>
  \<^verbatim>\<open>copy(buf[off:], src)\<close> overwrites at most as many bytes as \<^verbatim>\<open>buf\<close> has left
  after \<^verbatim>\<open>off\<close>.
\<close>

definition copy_bytes :: "byte list \<Rightarrow> nat \<Rightarrow> byte list \<Rightarrow> byte list" where
  "copy_bytes buf off src =
     take off buf @ take (length buf - off) src @ drop (off + length src) buf"

fun marshal_size :: "IP list \<Rightarrow> nat \<Rightarrow> nat" where
  "marshal_size [] sz = sz"
| "marshal_size (ip # ips) sz =
     (if To4 ip \<noteq> None then marshal_size ips (sz + 4) else marshal_size ips (sz + 16))"

text \<open>
  The second loop of \<^verbatim>\<open>Marshal\<close>: an address with a 4-byte form is copied as such,
  any other through \<^verbatim>\<open>To16\<close>, whose nil result copies nothing but still advances the
  offset by sixteen.
\<close>

fun marshal_ips :: "IP list \<Rightarrow> byte list \<Rightarrow> nat \<Rightarrow> byte list \<times> nat" where
  "marshal_ips [] buf offset = (buf, offset)"
| "marshal_ips (ip # ips) buf offset =
     (case To4 ip of
        Some v4 \<Rightarrow> marshal_ips ips (copy_bytes buf offset v4) (offset + 4)
      | None \<Rightarrow>
          marshal_ips ips
            (copy_bytes buf offset (case To16 ip of Some v6 \<Rightarrow> v6 | None \<Rightarrow> []))
            (offset + 16))"

definition PutUint16 :: "byte list \<Rightarrow> nat \<Rightarrow> 16 word \<Rightarrow> byte list" where
  "PutUint16 buf off v = buf[off := ucast (drop_bit 8 v), off + 1 := ucast v]"

definition Uint16 :: "byte list \<Rightarrow> nat \<Rightarrow> 16 word" where
  "Uint16 b off = ucast (b ! (off + 1)) OR push_bit 8 (ucast (b ! off))"

text \<open>
  \<^verbatim>\<open>Marshal\<close> in two parts: \<open>Marshal_fill\<close> is the buffer as lines 54 to 95 size and
  fill it, \<open>Marshal\<close> the version check before and the checksum after.
\<close>

definition Marshal_fill :: "Packet \<Rightarrow> byte list" where
  "Marshal_fill p =
     (let sz = marshal_size (IPAddresses p) 8;
          sz = (if Version p = VRRPv2 then sz + 8 else sz);
          buf = replicate sz 0;
          buf = buf[0 := push_bit 4 (Version p) OR (Type p AND 0x0F)];
          buf = buf[1 := VRID p];
          buf = buf[2 := Priority p];
          buf = buf[3 := CountIPAddrs p];
          buf = (if Version p = VRRPv2
                 then buf[4 := AuthType p, 5 := AdvInterval p]
                 else buf[4 := drop_bit 4 (AdvInterval p) AND 0xF0,
                          5 := AdvInterval p AND 0xFF]);
          (buf, offset) = marshal_ips (IPAddresses p) buf 8
      in if Version p = VRRPv2 \<and> length (AuthData p) = 8
         then copy_bytes buf offset (AuthData p)
         else buf)"

definition Marshal :: "Packet \<Rightarrow> error + byte list" where
  "Marshal p =
     (if Version p \<noteq> VRRPv2 \<and> Version p \<noteq> VRRPv3 then Inl (UnsupportedVersion (Version p))
      else
        let buf = Marshal_fill p
        in case calculateChecksum buf of
             Inl e \<Rightarrow> Inl e
           | Inr checksum \<Rightarrow> Inr (PutUint16 buf 6 checksum))"

subsection \<open>Unmarshal\<close>

text \<open>
  The address loop of \<^verbatim>\<open>Unmarshal\<close>, over the slice \<^verbatim>\<open>p.IPAddresses\<close> allocated
  with \<^verbatim>\<open>count\<close> nil entries. It returns the error (if any), the final offset and the
  slice as far as it was filled.
\<close>

function unmarshal_loop ::
  "byte \<Rightarrow> byte list \<Rightarrow> nat \<Rightarrow> nat \<Rightarrow> nat \<Rightarrow> IP list \<Rightarrow> error option \<times> nat \<times> IP list"
where
  "unmarshal_loop ver data count i offset ips =
     (if i < count then
        (if ver = VRRPv2 \<or> (ver = VRRPv3 \<and> length (drop offset data) \<ge> 4) then
           (if offset + 4 > length data then (Some InsufficientIPv4, offset, ips)
            else unmarshal_loop ver data count (i + 1) (offset + 4)
                   (ips[i := take 4 (drop offset data)]))
         else
           (if offset + 16 > length data then (Some InsufficientIPv6, offset, ips)
            else unmarshal_loop ver data count (i + 1) (offset + 16)
                   (ips[i := take 16 (drop offset data)])))
      else (None, offset, ips))"
  by pat_completeness auto
termination
  by (relation "measure (\<lambda>(ver, data, count, i, offset, ips). count - i)") auto

declare unmarshal_loop.simps [simp del]

text \<open>
  \<^verbatim>\<open>Unmarshal\<close> writes into its receiver, so the model takes the receiver and returns
  it as the call leaves it, next to the error. On \<^verbatim>\<open>uint8\<close> the shift
  \<^verbatim>\<open>(data[4] & 0x0F) << 8\<close> is zero. In the source the addresses and the
  authentication data are sub-slices of \<^verbatim>\<open>data\<close>; the model holds their contents as
  they are when the call returns.
\<close>

definition Unmarshal :: "Packet \<Rightarrow> byte list \<Rightarrow> error option \<times> Packet" where
  "Unmarshal p data =
     (if length data < 8 then (Some (PacketTooShort (length data)), p)
      else
        let p = p\<lparr> Version := drop_bit 4 (data ! 0) AND 0x0F,
                   Type := data ! 0 AND 0x0F,
                   VRID := data ! 1,
                   Priority := data ! 2,
                   CountIPAddrs := data ! 3 \<rparr>;
            p = (if Version p = VRRPv2
                 then p\<lparr> AuthType := data ! 4, AdvInterval := data ! 5 \<rparr>
                 else p\<lparr> AdvInterval := push_bit 8 (data ! 4 AND 0x0F) OR data ! 5 \<rparr>);
            p = p\<lparr> Checksum := Uint16 data 6 \<rparr>;
            count = unat (CountIPAddrs p);
            (err, offset, ips) = unmarshal_loop (Version p) data count 0 8 (replicate count []);
            p = p\<lparr> IPAddresses := ips \<rparr>
        in case err of
             Some e \<Rightarrow> (Some e, p)
           | None \<Rightarrow>
               (None,
                if Version p = VRRPv2 \<and> offset + 8 \<le> length data
                then p\<lparr> AuthData := take 8 (drop offset data) \<rparr>
                else p))"

section \<open>State machine (src/pkg/vrrp/packet_test.go, lines 148 to 476)\<close>

text \<open>
  The source of the state machine follows the packet tests in the same file: the types
  \<^verbatim>\<open>State\<close>, \<^verbatim>\<open>StateMachine\<close> and \<^verbatim>\<open>Event\<close> and the methods from \<^verbatim>\<open>NewStateMachine\<close>
  to \<^verbatim>\<open>GetSendChannel\<close>.
\<close>

datatype State = Init | Backup | Master

datatype Event =
    EventStartup
  | EventShutdown
  | EventMasterDown
  | EventAdvertReceived
  | EventPriorityZeroReceived

text \<open>
  \<^verbatim>\<open>time.Duration\<close> counts nanoseconds in an \<^verbatim>\<open>int64\<close>. The only duration the
  source ever stores is \<^verbatim>\<open>time.Second\<close> and what \<^verbatim>\<open>calculateMasterDownInterval\<close>
  derives from it, far from the ends of that range, so durations are integers here.
  \<^verbatim>\<open>Milliseconds\<close> and Go's \<^verbatim>\<open>/\<close> truncate towards zero.
\<close>

type_synonym Duration = int

definition Millisecond :: Duration where
  "Millisecond = 1000000"

definition Second :: Duration where
  "Second = 1000 * Millisecond"

definition Milliseconds :: "Duration \<Rightarrow> int" where
  "Milliseconds d = d sdiv 1000000"

text \<open>What the state machine and its observer write with \<^verbatim>\<open>log.Printf\<close>.\<close>

datatype log_line =
    LogStateTransition byte State State
  | LogFailedToAdd IP error
  | LogAdded IP string
  | LogFailedToRemove IP error
  | LogRemoved IP string
  | LogSendChannelFull
  | LogReceiveChannelFull
  | LogStateChanged byte State State
  | LogNowMaster byte "IP list"

text \<open>
  The two timers are pointers: nil is \<open>None\<close>, an armed timer carries the duration it
  was created with. The three buffered channels have capacity 10 and are the lists of
  what they hold. The observer \<^verbatim>\<open>onStateChange\<close> is a function that returns the lines
  it logs; \<open>observed\<close> records each call made to it, and \<open>logged\<close> every line written.
\<close>

record StateMachine =
  state :: State
  vrid :: byte
  priority :: byte
  advertisementInterval :: Duration
  masterDownInterval :: Duration
  virtualIPs :: "IP list"
  iface :: Interface
  masterDownTimer :: "Duration option"
  advertTimer :: "Duration option"
  sendCh :: "Packet list"
  recvCh :: "Packet list"
  eventCh :: "Event list"
  stopCh :: bool
  onStateChange :: "(State \<Rightarrow> State \<Rightarrow> log_line list) option"
  observed :: "(State \<times> State) list"
  logged :: "log_line list"

definition chanCap :: nat where
  "chanCap = 10"

definition calculateMasterDownInterval :: "StateMachine \<Rightarrow> Duration" where
  "calculateMasterDownInterval sm =
     (let skewTime =
            ((256 - uint (priority sm)) * (Milliseconds (advertisementInterval sm) sdiv 256))
              * Millisecond
      in 3 * advertisementInterval sm + skewTime)"

definition NewStateMachine :: "byte \<Rightarrow> byte \<Rightarrow> IP list \<Rightarrow> Interface \<Rightarrow> StateMachine" where
  "NewStateMachine vrid' priority' ips iface' =
     (let sm = \<lparr> state = Init,
                  vrid = vrid',
                  priority = priority',
                  advertisementInterval = Second,
                  masterDownInterval = 0,
                  virtualIPs = ips,
                  iface = iface',
                  masterDownTimer = None,
                  advertTimer = None,
                  sendCh = [],
                  recvCh = [],
                  eventCh = [],
                  stopCh = False,
                  onStateChange = None,
                  observed = [],
                  logged = [] \<rparr>
      in sm\<lparr> masterDownInterval := calculateMasterDownInterval sm \<rparr>)"

definition SetStateChangeCallback ::
  "StateMachine \<Rightarrow> (State \<Rightarrow> State \<Rightarrow> log_line list) \<Rightarrow> StateMachine" where
  "SetStateChangeCallback sm fn = sm\<lparr> onStateChange := Some fn \<rparr>"

definition GetState :: "StateMachine \<Rightarrow> State" where
  "GetState sm = state sm"

subsection \<open>Timers\<close>

definition stopMasterDownTimer :: "StateMachine \<Rightarrow> StateMachine" where
  "stopMasterDownTimer sm =
     (if masterDownTimer sm \<noteq> None then sm\<lparr> masterDownTimer := None \<rparr> else sm)"

definition startMasterDownTimer :: "StateMachine \<Rightarrow> StateMachine" where
  "startMasterDownTimer sm =
     (let sm = stopMasterDownTimer sm
      in sm\<lparr> masterDownTimer := Some (masterDownInterval sm) \<rparr>)"

definition resetMasterDownTimer :: "StateMachine \<Rightarrow> StateMachine" where
  "resetMasterDownTimer sm =
     (let sm = stopMasterDownTimer sm
      in sm\<lparr> masterDownTimer := Some (masterDownInterval sm) \<rparr>)"

definition stopAdvertTimer :: "StateMachine \<Rightarrow> StateMachine" where
  "stopAdvertTimer sm =
     (if advertTimer sm \<noteq> None then sm\<lparr> advertTimer := None \<rparr> else sm)"

definition startAdvertTimer :: "StateMachine \<Rightarrow> StateMachine" where
  "startAdvertTimer sm =
     (let sm = stopAdvertTimer sm
      in sm\<lparr> advertTimer := Some (advertisementInterval sm) \<rparr>)"

subsection \<open>Advertisements and virtual addresses\<close>

text \<open>The \<^verbatim>\<open>select\<close> with a default branch drops the packet when the channel is full.\<close>

definition sendAdvertisement :: "StateMachine \<Rightarrow> StateMachine" where
  "sendAdvertisement sm =
     (let pkt = NewPacket VRRPv2 (vrid sm) (priority sm) (virtualIPs sm)
      in if length (sendCh sm) < chanCap
         then sm\<lparr> sendCh := sendCh sm @ [pkt] \<rparr>
         else sm\<lparr> logged := logged sm @ [LogSendChannelFull] \<rparr>)"

text \<open>
  Both address operations of the state machine (\<^verbatim>\<open>addIP\<close>, \<^verbatim>\<open>delIP\<close>, lines 462 to 468) are
  stubs that return an error.
\<close>

definition addIP :: "StateMachine \<Rightarrow> IP \<Rightarrow> error option" where
  "addIP sm ip = Some IPManagementNotImplemented"

definition delIP :: "StateMachine \<Rightarrow> IP \<Rightarrow> error option" where
  "delIP sm ip = Some IPManagementNotImplemented"

fun acquire_loop :: "StateMachine \<Rightarrow> IP list \<Rightarrow> StateMachine" where
  "acquire_loop sm [] = sm"
| "acquire_loop sm (ip # ips) =
     acquire_loop
       (case addIP sm ip of
          Some err \<Rightarrow> sm\<lparr> logged := logged sm @ [LogFailedToAdd ip err] \<rparr>
        | None \<Rightarrow> sm\<lparr> logged := logged sm @ [LogAdded ip (Name (iface sm))] \<rparr>)
       ips"

definition acquireVirtualIPs :: "StateMachine \<Rightarrow> StateMachine" where
  "acquireVirtualIPs sm = acquire_loop sm (virtualIPs sm)"

fun release_loop :: "StateMachine \<Rightarrow> IP list \<Rightarrow> StateMachine" where
  "release_loop sm [] = sm"
| "release_loop sm (ip # ips) =
     release_loop
       (case delIP sm ip of
          Some err \<Rightarrow> sm\<lparr> logged := logged sm @ [LogFailedToRemove ip err] \<rparr>
        | None \<Rightarrow> sm\<lparr> logged := logged sm @ [LogRemoved ip (Name (iface sm))] \<rparr>)
       ips"

definition releaseVirtualIPs :: "StateMachine \<Rightarrow> StateMachine" where
  "releaseVirtualIPs sm = release_loop sm (virtualIPs sm)"

definition compareSourceIP :: "StateMachine \<Rightarrow> Packet \<Rightarrow> int" where
  "compareSourceIP sm pkt = 0"

subsection \<open>transition, handleEvent, handlePacket\<close>

definition transition :: "StateMachine \<Rightarrow> State \<Rightarrow> StateMachine" where
  "transition sm newState =
     (let oldState = state sm
      in if oldState = newState then sm
         else
           let sm = sm\<lparr> logged := logged sm @ [LogStateTransition (vrid sm) oldState newState] \<rparr>;
               sm = (case oldState of
                       Master \<Rightarrow> releaseVirtualIPs (stopAdvertTimer sm)
                     | Backup \<Rightarrow> stopMasterDownTimer sm
                     | Init \<Rightarrow> sm);
               sm = sm\<lparr> state := newState \<rparr>;
               sm = (case newState of
                       Master \<Rightarrow> startAdvertTimer (sendAdvertisement (acquireVirtualIPs sm))
                     | Backup \<Rightarrow> startMasterDownTimer sm
                     | Init \<Rightarrow> releaseVirtualIPs (stopMasterDownTimer (stopAdvertTimer sm)))
           in case onStateChange sm of
                Some fn \<Rightarrow> sm\<lparr> observed := observed sm @ [(oldState, newState)],
                                 logged := logged sm @ fn oldState newState \<rparr>
              | None \<Rightarrow> sm)"

fun handleEvent :: "StateMachine \<Rightarrow> Event \<Rightarrow> StateMachine" where
  "handleEvent sm EventStartup =
     (if priority sm = 255 then transition sm Master else transition sm Backup)"
| "handleEvent sm EventShutdown = transition sm Init"
| "handleEvent sm EventMasterDown =
     (if state sm = Backup then transition sm Master else sm)"
| "handleEvent sm EventPriorityZeroReceived =
     (if state sm = Master then sendAdvertisement sm else sm)"
| "handleEvent sm EventAdvertReceived = sm"

text \<open>
  \<^verbatim>\<open>sm.eventCh <- EventPriorityZeroReceived\<close> is a blocking send: on a full channel
  the call never returns, which is the result \<open>None\<close>.
\<close>

definition handlePacket :: "StateMachine \<Rightarrow> Packet \<Rightarrow> StateMachine option" where
  "handlePacket sm pkt =
     (if VRID pkt \<noteq> vrid sm then Some sm
      else if Priority pkt = 0 then
        (if length (eventCh sm) < chanCap
         then Some (sm\<lparr> eventCh := eventCh sm @ [EventPriorityZeroReceived] \<rparr>)
         else None)
      else
        (case state sm of
           Backup \<Rightarrow>
             Some (if Priority pkt \<ge> priority sm then resetMasterDownTimer sm else sm)
         | Master \<Rightarrow>
             Some (if Priority pkt > priority sm
                      \<or> (Priority pkt = priority sm \<and> compareSourceIP sm pkt > 0)
                   then transition sm Backup
                   else sm)
         | Init \<Rightarrow> Some sm))"

text \<open>\<^verbatim>\<open>ProcessPacket\<close> offers the packet to \<^verbatim>\<open>recvCh\<close> without blocking.\<close>

definition ProcessPacket :: "StateMachine \<Rightarrow> Packet \<Rightarrow> StateMachine" where
  "ProcessPacket sm pkt =
     (if length (recvCh sm) < chanCap
      then sm\<lparr> recvCh := recvCh sm @ [pkt] \<rparr>
      else sm\<lparr> logged := logged sm @ [LogReceiveChannelFull] \<rparr>)"

text \<open>
  \<^verbatim>\<open>Start\<close> queues the startup event with a blocking send (\<open>None\<close> when the channel
  is full, which a new machine's is not) and returns nil. The \<^verbatim>\<open>run\<close> loop it spawns
  calls \<^verbatim>\<open>handleEvent\<close> and \<^verbatim>\<open>handlePacket\<close> one at a time.
\<close>

definition StateMachine_Start :: "StateMachine \<Rightarrow> (error option \<times> StateMachine) option" where
  "StateMachine_Start sm =
     (if length (eventCh sm) < chanCap
      then Some (None, sm\<lparr> eventCh := eventCh sm @ [EventStartup] \<rparr>)
      else None)"

section \<open>Router (src/pkg/vrrp/router.go)\<close>

text \<open>
  Record fields are global names in Isabelle, so the fields of \<^verbatim>\<open>Config\<close>,
  \<^verbatim>\<open>Network\<close> and \<^verbatim>\<open>VirtualRouter\<close> carry a prefix where the source reuses the
  names of \<^verbatim>\<open>Packet\<close> and \<^verbatim>\<open>StateMachine\<close>.
\<close>

record Config =
  cfg_VRID :: byte
  cfg_Priority :: byte
  cfg_Interface :: string
  cfg_VirtualIPs :: "string list"
  cfg_AdvInterval :: int
  cfg_Preempt :: bool
  cfg_Version :: byte

text \<open>\<^verbatim>\<open>Network\<close> without its socket: the interface and the source address.\<close>

record Network =
  net_iface :: Interface
  net_sourceIP :: IP

record VirtualRouter =
  vr_vrid :: byte
  vr_priority :: byte
  vr_ips :: "IP list"
  vr_iface :: string
  vr_network :: "Network option"
  vr_stateMachine :: "StateMachine option"
  vr_running :: bool

text \<open>
  The loop of \<^verbatim>\<open>NewVirtualRouter\<close> over the configured strings. \<^verbatim>\<open>net.ParseIP\<close>
  belongs to the standard library and is a parameter.
\<close>

fun parse_loop :: "(string \<Rightarrow> IP option) \<Rightarrow> string list \<Rightarrow> IP list \<Rightarrow> error + IP list" where
  "parse_loop ParseIP [] ips = Inr ips"
| "parse_loop ParseIP (ipStr # rest) ips =
     (case ParseIP ipStr of
        None \<Rightarrow> Inl (InvalidIPAddress ipStr)
      | Some ip \<Rightarrow>
          (case To4 ip of
             None \<Rightarrow> Inl (OnlyIPv4Supported ipStr)
           | Some v4 \<Rightarrow> parse_loop ParseIP rest (ips @ [v4])))"

text \<open>
  On \<^verbatim>\<open>uint8\<close> the comparisons \<^verbatim>\<open>cfg.VRID > 255\<close> and \<^verbatim>\<open>cfg.Priority > 255\<close> never
  hold; they are kept as the source has them. \<^verbatim>\<open>cfg.AdvInterval\<close>, \<^verbatim>\<open>cfg.Preempt\<close>
  and \<^verbatim>\<open>cfg.Version\<close> are not read.
\<close>

definition NewVirtualRouter :: "(string \<Rightarrow> IP option) \<Rightarrow> Config \<Rightarrow> error + VirtualRouter" where
  "NewVirtualRouter ParseIP cfg =
     (if cfg_VRID cfg = 0 \<or> cfg_VRID cfg > 255 then Inl InvalidVRID
      else if cfg_Priority cfg > 255 then Inl InvalidPriority
      else if cfg_Interface cfg = [] then Inl InterfaceNameRequired
      else if length (cfg_VirtualIPs cfg) = 0 then Inl VirtualIPRequired
      else
        (case parse_loop ParseIP (cfg_VirtualIPs cfg) [] of
           Inl e \<Rightarrow> Inl e
         | Inr ips \<Rightarrow>
             Inr \<lparr> vr_vrid = cfg_VRID cfg,
                   vr_priority = cfg_Priority cfg,
                   vr_ips = ips,
                   vr_iface = cfg_Interface cfg,
                   vr_network = None,
                   vr_stateMachine = None,
                   vr_running = False \<rparr>))"

text \<open>
  The observer the router registers: it logs the change and, on becoming master, the
  addresses.
\<close>

definition VirtualRouter_onStateChange :: "VirtualRouter \<Rightarrow> State \<Rightarrow> State \<Rightarrow> log_line list" where
  "VirtualRouter_onStateChange vr old new =
     LogStateChanged (vr_vrid vr) old new
       # (if new = Master then [LogNowMaster (vr_vrid vr) (vr_ips vr)] else [])"

text \<open>
  \<^verbatim>\<open>Start\<close> takes the outcome of \<^verbatim>\<open>NewNetwork\<close>, which opens the socket, as its second
  argument. The send and receive workers it spawns are outside this model. The result is
  \<open>None\<close> when the call does not return.
\<close>

definition VirtualRouter_Start ::
  "VirtualRouter \<Rightarrow> error + Network \<Rightarrow> (error option \<times> VirtualRouter) option" where
  "VirtualRouter_Start vr NewNetwork =
     (if vr_running vr then Some (Some AlreadyRunning, vr)
      else
        (case NewNetwork of
           Inl err \<Rightarrow> Some (Some (FailedToInitializeNetwork err), vr)
         | Inr network \<Rightarrow>
             let vr = vr\<lparr> vr_network := Some network \<rparr>;
                 sm = NewStateMachine (vr_vrid vr) (vr_priority vr) (vr_ips vr) (net_iface network);
                 sm = SetStateChangeCallback sm (VirtualRouter_onStateChange vr)
             in case StateMachine_Start sm of
                  None \<Rightarrow> None
                | Some (Some err, sm) \<Rightarrow>
                    Some (Some (FailedToStartStateMachine err), vr\<lparr> vr_stateMachine := Some sm \<rparr>)
                | Some (None, sm) \<Rightarrow>
                    Some (None, vr\<lparr> vr_stateMachine := Some sm, vr_running := True \<rparr>)))"

definition VirtualRouter_GetState :: "VirtualRouter \<Rightarrow> State" where
  "VirtualRouter_GetState vr =
     (case vr_stateMachine vr of Some sm \<Rightarrow> GetState sm | None \<Rightarrow> Init)"

section \<open>IP manager (src/unnamed/part_002)\<close>

subsection \<open>The kernel's address table\<close>

text \<open>
  Modelled from the spec: the netlink library (\<^verbatim>\<open>LinkByIndex\<close>, \<^verbatim>\<open>AddrList\<close>,
  \<^verbatim>\<open>AddrAdd\<close>, \<^verbatim>\<open>AddrDel\<close>) and the kernel behind it are an external dependency and
  not in the sources. The spec says that the manager holds no state beyond what the
  kernel reports, that listing returns all addresses currently assigned to the
  interface, and that changes need privileges. So the kernel is a table from link index
  to the addresses assigned to that link, with a flag for the privilege to change it.
  Looking up or listing a missing link fails; adding needs the privilege and an address
  (same IP and mask) not yet assigned; deleting needs the privilege and an assigned
  address.
\<close>

record Addr =
  IP :: IP
  Mask :: "byte list"
  Label :: string
  Scope :: int

record Kernel =
  ifaddrs :: "int \<rightharpoonup> Addr list"
  cap_net_admin :: bool

type_synonym Link = int


text \<open>Modelled from the spec: \<^verbatim>\<open>netlink.LinkByIndex\<close> finds a link the kernel knows.\<close>

definition netlink_LinkByIndex :: "Kernel \<Rightarrow> int \<Rightarrow> error + Link" where
  "netlink_LinkByIndex k index =
     (case ifaddrs k index of None \<Rightarrow> Inl ENODEV | Some _ \<Rightarrow> Inr index)"

text \<open>
  Modelled from the spec: \<^verbatim>\<open>netlink.AddrList\<close> returns all addresses currently assigned
  to the link.
\<close>

definition netlink_AddrList :: "Kernel \<Rightarrow> Link \<Rightarrow> error + Addr list" where
  "netlink_AddrList k link =
     (case ifaddrs k link of None \<Rightarrow> Inl ENODEV | Some addrs \<Rightarrow> Inr addrs)"

text \<open>
  Modelled from the spec: the kernel tells two addresses of a link apart by IP and
  mask, and a deletion removes the one entry that matches.
\<close>

definition same_addr :: "Addr \<Rightarrow> Addr \<Rightarrow> bool" where
  "same_addr a b = (IP a = IP b \<and> Mask a = Mask b)"





subsection \<open>AddIP, DelIP, ListIPs\<close>

record IPManager =
  mgr_iface :: Interface






definition ListIPs :: "IPManager \<Rightarrow> Kernel \<Rightarrow> error + IP list" where
  "ListIPs m k =
     (case netlink_LinkByIndex k (Index (mgr_iface m)) of
        Inl err \<Rightarrow> Inl (FailedToGetLink (Index (mgr_iface m)) err)
      | Inr link \<Rightarrow>
          (case netlink_AddrList k link of
             Inl err \<Rightarrow> Inl (FailedToListAddresses err)
           | Inr addrs \<Rightarrow> Inr (map IP addrs)))"


section \<open>The one's-complement sum, as the specification words it\<close>





section \<open>Values from the package's tests and README\<close>

text \<open>The interface and the machine of \<^verbatim>\<open>TestPacketHandling\<close>, put in Master state.\<close>

definition test0 :: Interface where
  "test0 = \<lparr> Index = 1, Name = ''test0'' \<rparr>"

definition TestPacketHandling_sm :: StateMachine where
  "TestPacketHandling_sm =
     (NewStateMachine 10 100 [IPv4 192 168 1 100] test0)\<lparr> state := Master \<rparr>"

definition wrongVRID :: Packet where
  "wrongVRID =
     \<lparr> Version = 0, Type = 0, VRID = 20, Priority = 200, CountIPAddrs = 0, AuthType = 0,
       AdvInterval = 0, Checksum = 0, IPAddresses = [], AuthData = [] \<rparr>"

definition samePriorityHigher :: Packet where
  "samePriorityHigher =
     \<lparr> Version = 0, Type = 0, VRID = 10, Priority = 100, CountIPAddrs = 0, AuthType = 0,
       AdvInterval = 0, Checksum = 0, IPAddresses = [IPv4 10 0 0 200], AuthData = [] \<rparr>"

text \<open>An address owner: a new machine with priority 255 and one virtual address.\<close>

definition address_owner_sm :: StateMachine where
  "address_owner_sm = NewStateMachine 1 255 [IPv4 192 168 1 100] test0"

text \<open>The zero value \<^verbatim>\<open>&Packet{}\<close> and the packet of \<^verbatim>\<open>TestPacketMarshalUnmarshal\<close>.\<close>

definition zero_Packet :: Packet where
  "zero_Packet =
     \<lparr> Version = 0, Type = 0, VRID = 0, Priority = 0, CountIPAddrs = 0, AuthType = 0,
       AdvInterval = 0, Checksum = 0, IPAddresses = [], AuthData = [] \<rparr>"

definition TestPacketMarshalUnmarshal_original :: Packet where
  "TestPacketMarshalUnmarshal_original =
     NewPacket VRRPv2 10 150 [[192, 168, 1, 100], [192, 168, 1, 101]]"

text \<open>The packet of \<^verbatim>\<open>TestPacketChecksum\<close>.\<close>

definition TestPacketChecksum_pkt :: Packet where
  "TestPacketChecksum_pkt = NewPacket VRRPv2 1 200 [[10, 0, 0, 1]]"

text \<open>
  The README's run with \<^verbatim>\<open>--advert-int 3\<close>, as \<^verbatim>\<open>main.go\<close> passes it on, with the
  one string \<^verbatim>\<open>net.ParseIP\<close> has to read and the network \<^verbatim>\<open>NewNetwork\<close> would open.
\<close>

definition readme_config :: Config where
  "readme_config =
     \<lparr> cfg_VRID = 10, cfg_Priority = 100, cfg_Interface = ''eth0'',
       cfg_VirtualIPs = [''192.168.1.100''], cfg_AdvInterval = 3, cfg_Preempt = True,
       cfg_Version = VRRPv2 \<rparr>"

definition readme_ParseIP :: "string \<Rightarrow> IP option" where
  "readme_ParseIP str = (if str = ''192.168.1.100'' then Some (IPv4 192 168 1 100) else None)"

definition readme_network :: Network where
  "readme_network =
     \<lparr> net_iface = \<lparr> Index = 2, Name = ''eth0'' \<rparr>, net_sourceIP = [192, 168, 1, 10] \<rparr>"




text \<open>
  The master-down interval as the documentation words it, in the unit the interval is
  given in: the product \<open>(256 - priority) * advertisement_interval\<close> first, then the
  division by 256.
\<close>

definition documented_skew_time :: "int \<Rightarrow> Duration \<Rightarrow> Duration" where
  "documented_skew_time prio advertisement_interval =
     ((256 - prio) * advertisement_interval) sdiv 256"

definition documented_master_down_interval :: "int \<Rightarrow> Duration \<Rightarrow> Duration" where
  "documented_master_down_interval prio advertisement_interval =
     3 * advertisement_interval + documented_skew_time prio advertisement_interval"

section \<open>Properties of the codec\<close>

subsection \<open>Length of the buffer\<close>

lemma length_copy_bytes [simp]: "length (copy_bytes buf off src) = length buf"
  by (simp add: copy_bytes_def)

lemma length_marshal_ips: "marshal_ips ips buf off = (b, off') \<Longrightarrow> length b = length buf"
  by (induction ips arbitrary: buf off) (auto split: option.splits)

lemma marshal_size_ge: "sz \<le> marshal_size ips sz"
proof (induction ips arbitrary: sz)
  case Nil
  show ?case by simp
next
  case (Cons ip ips)
  have "sz + 4 \<le> marshal_size ips (sz + 4)" "sz + 16 \<le> marshal_size ips (sz + 16)"
    by (rule Cons.IH)+
  then show ?case by (simp; linarith)
qed

lemma marshal_size_v4:
  "\<forall>ip \<in> set ips. To4 ip \<noteq> None \<Longrightarrow> marshal_size ips sz = sz + 4 * length ips"
  by (induction ips arbitrary: sz) simp_all

lemma length_PutUint16 [simp]: "length (PutUint16 buf off v) = length buf"
  by (simp add: PutUint16_def)

lemma length_Marshal_fill:
  "length (Marshal_fill p) = marshal_size (IPAddresses p) 8 + (if Version p = VRRPv2 then 8 else 0)"
proof -
  have "length (case marshal_ips ips buf 8 of (b, off) \<Rightarrow> if c then copy_bytes b off a else b) = length buf"
    for ips buf c a
    by (auto split: prod.splits dest: length_marshal_ips)
  then show ?thesis by (simp add: Marshal_fill_def Let_def)
qed

lemma Marshal_fill_ge8: "8 \<le> length (Marshal_fill p)"
  using marshal_size_ge [of 8 "IPAddresses p"] by (simp add: length_Marshal_fill)

lemma Marshal_Inr:
  assumes "Version p = VRRPv2 \<or> Version p = VRRPv3"
  shows "Marshal p = Inr (PutUint16 (Marshal_fill p) 6 (projr (calculateChecksum (Marshal_fill p))))"
  using assms Marshal_fill_ge8 [of p]
  by (auto simp: Marshal_def Let_def calculateChecksum_def)

lemma Marshal_length:
  assumes "Marshal p = Inr buf"
  shows "length buf = marshal_size (IPAddresses p) 8 + (if Version p = VRRPv2 then 8 else 0)"
  using assms Marshal_fill_ge8 [of p]
  by (auto simp: Marshal_def Let_def length_Marshal_fill split: if_splits sum.splits)

text \<open>
  Claim C7 as stated fails for a packet without authentication data: the packet of
  \<^verbatim>\<open>TestPacketChecksum\<close>, version 2 with the one address 10.0.0.1 and no
  authentication data, marshals to 20 bytes, not to 8 + 4 * 1 = 12.
\<close>

theorem marshal_length_without_auth_counterexample:
  "Version TestPacketChecksum_pkt = VRRPv2
   \<and> IPAddresses TestPacketChecksum_pkt = [[10, 0, 0, 1]]
   \<and> To4 [10, 0, 0, 1] = Some [10, 0, 0, 1]
   \<and> length (AuthData TestPacketChecksum_pkt) \<noteq> 8
   \<and> Marshal TestPacketChecksum_pkt
       = Inr [33, 1, 200, 1, 0, 1, 12, 251, 10, 0, 0, 1, 0, 0, 0, 0, 0, 0, 0, 0]
   \<and> length [33, 1, 200, 1, 0, 1, 12, 251, 10, 0, 0, 1, 0, 0, 0, 0, 0, 0, 0, 0 :: byte]
       \<noteq> 8 + 4 * length (IPAddresses TestPacketChecksum_pkt)"
  by code_simp

text \<open>
  Claim C7, amended. For a version 2 packet whose \<open>N\<close> addresses are all IPv4,
  \<open>Marshal\<close> succeeds and the buffer is \<open>8 + 4 * N + 8\<close> bytes long, with or
  without authentication data: the source adds the eight trailing bytes for every
  version 2 packet.
\<close>

theorem marshal_length_v2:
  assumes "Version p = VRRPv2" and "\<forall>ip \<in> set (IPAddresses p). To4 ip \<noteq> None"
  shows "\<exists>buf. Marshal p = Inr buf \<and> length buf = 8 + 4 * length (IPAddresses p) + 8"
proof -
  have "Marshal p = Inr (PutUint16 (Marshal_fill p) 6 (projr (calculateChecksum (Marshal_fill p))))"
    using assms(1) by (simp add: Marshal_Inr)
  moreover have "length (Marshal_fill p) = 8 + 4 * length (IPAddresses p) + 8"
    using assms by (simp add: length_Marshal_fill marshal_size_v4)
  ultimately show ?thesis by simp
qed

theorem marshal_length_v2_witness:
  "Version TestPacketChecksum_pkt = VRRPv2
   \<and> IPAddresses TestPacketChecksum_pkt = [[10, 0, 0, 1]]
   \<and> To4 [10, 0, 0, 1] = Some [10, 0, 0, 1]
   \<and> length (AuthData TestPacketChecksum_pkt) = 0
   \<and> (\<exists>buf. Marshal TestPacketChecksum_pkt = Inr buf \<and> length buf = 20)
   \<and> length (AuthData (TestPacketChecksum_pkt\<lparr> AuthData := [1, 2, 3, 4, 5, 6, 7, 8] \<rparr>)) = 8
   \<and> (\<exists>buf. Marshal (TestPacketChecksum_pkt\<lparr> AuthData := [1, 2, 3, 4, 5, 6, 7, 8] \<rparr>) = Inr buf
          \<and> length buf = 20)"
proof -
  have v: "Version TestPacketChecksum_pkt = VRRPv2"
    and v': "Version (TestPacketChecksum_pkt\<lparr> AuthData := [1, 2, 3, 4, 5, 6, 7, 8] \<rparr>) = VRRPv2"
    by (simp_all add: TestPacketChecksum_pkt_def NewPacket_def)
  have a: "\<forall>ip \<in> set (IPAddresses TestPacketChecksum_pkt). To4 ip \<noteq> None"
    and a': "\<forall>ip \<in> set (IPAddresses (TestPacketChecksum_pkt\<lparr> AuthData := [1, 2, 3, 4, 5, 6, 7, 8] \<rparr>)).
               To4 ip \<noteq> None"
    by (simp_all add: TestPacketChecksum_pkt_def NewPacket_def To4_def)
  have n: "length (IPAddresses TestPacketChecksum_pkt) = 1"
    by (simp add: TestPacketChecksum_pkt_def NewPacket_def)
  show ?thesis
    using v a marshal_length_v2 [OF v a] marshal_length_v2 [OF v' a'] n
    by (simp add: TestPacketChecksum_pkt_def NewPacket_def To4_def)
qed

subsection \<open>The end-around carry\<close>





subsection \<open>The summing loop and the words of the buffer\<close>






subsection \<open>The carry loop and the complement on machine words\<close>









subsection \<open>The checksum of a buffer\<close>









subsection \<open>Round trip: the buffer Marshal fills\<close>

lemma To4_length: "To4 ip = Some v \<Longrightarrow> length v = 4"
  by (auto simp: To4_def split: if_splits)

lemma ip_Equal_To4: "To4 ip = Some v \<Longrightarrow> ip_Equal v ip"
  by (auto simp: To4_def ip_Equal_def split: if_splits)

lemma copy_bytes_fits:
  "off + length src \<le> length buf \<Longrightarrow>
   copy_bytes buf off src = take off buf @ src @ drop (off + length src) buf"
  by (simp add: copy_bytes_def)

lemma marshal_ips_v4:
  assumes "\<forall>ip \<in> set ips. To4 ip \<noteq> None" and "off + 4 * length ips \<le> length buf"
  shows "marshal_ips ips buf off =
           (take off buf @ concat (map (\<lambda>ip. the (To4 ip)) ips) @ drop (off + 4 * length ips) buf,
            off + 4 * length ips)"
  using assms
proof (induction ips arbitrary: buf off)
  case Nil
  then show ?case by simp
next
  case (Cons ip ips)
  then obtain v where v: "To4 ip = Some v" by auto
  then have lv: "length v = 4" by (rule To4_length)
  let ?buf = "take off buf @ v @ drop (off + 4) buf"
  have fit: "off + 4 \<le> length buf" using Cons.prems(2) by simp
  have c: "copy_bytes buf off v = ?buf"
    using fit lv by (simp add: copy_bytes_fits)
  have len: "length ?buf = length buf" using fit lv by simp
  have IH: "marshal_ips ips ?buf (off + 4) =
      (take (off + 4) ?buf @ concat (map (\<lambda>ip. the (To4 ip)) ips) @ drop (off + 4 + 4 * length ips) ?buf,
       off + 4 + 4 * length ips)"
  proof (rule Cons.IH)
    show "\<forall>ip \<in> set ips. To4 ip \<noteq> None" using Cons.prems(1) by simp
    show "off + 4 + 4 * length ips \<le> length ?buf" using Cons.prems(2) len by simp
  qed
  have t: "take (off + 4) ?buf = take off buf @ v"
    using fit lv by simp
  have d: "drop (off + 4 + 4 * length ips) ?buf = drop (off + 4 + 4 * length ips) buf"
    using fit lv by (simp add: ac_simps)
  have "marshal_ips (ip # ips) buf off = marshal_ips ips ?buf (off + 4)"
    by (simp add: v c)
  also have "\<dots> = ((take off buf @ v) @ concat (map (\<lambda>ip. the (To4 ip)) ips)
        @ drop (off + 4 + 4 * length ips) buf, off + 4 + 4 * length ips)"
    by (simp only: IH t d)
  finally show ?case by (simp add: v ac_simps)
qed


subsection \<open>Round trip: the address loop of Unmarshal\<close>

lemma length_concat_v4:
  "\<forall>v \<in> set vs. length v = 4 \<Longrightarrow> length (concat vs) = 4 * length vs"
  by (induction vs) simp_all

lemma drop_concat_v4:
  "\<forall>v \<in> set vs. length v = 4 \<Longrightarrow> drop (4 * i) (concat vs) = concat (drop i vs)"
proof (induction vs arbitrary: i)
  case Nil
  show ?case by simp
next
  case (Cons v vs)
  show ?case
  proof (cases i)
    case 0
    then show ?thesis by simp
  next
    case (Suc j)
    then show ?thesis using Cons by simp
  qed
qed

lemma chunk_at:
  assumes "length H = 8" and "\<forall>v \<in> set vs. length v = 4" and "i < length vs"
  shows "take 4 (drop (8 + 4 * i) (H @ concat vs @ tail)) = vs ! i"
proof -
  have "drop (8 + 4 * i) (H @ concat vs @ tail) = drop (4 * i) (concat vs) @ drop (4 * i - length (concat vs)) tail"
    using assms(1) by simp
  also have "4 * i - length (concat vs) = 0"
    using assms(2,3) by (simp add: length_concat_v4)
  also have "drop (4 * i) (concat vs) = concat (drop i vs)"
    using assms(2) by (rule drop_concat_v4)
  also have "drop i vs = vs ! i # drop (Suc i) vs"
    using assms(3) by (simp add: Cons_nth_drop_Suc)
  finally show ?thesis using assms(2,3) by simp
qed

lemma unmarshal_loop_v2:
  assumes "length H = 8" and "\<forall>v \<in> set vs. length v = 4"
    and "i \<le> length vs" and "length ips = length vs"
  shows "unmarshal_loop VRRPv2 (H @ concat vs @ tail) (length vs) i (8 + 4 * i) ips
       = (None, 8 + 4 * length vs, take i ips @ drop i vs)"
  using assms(3,4)
proof (induction "length vs - i" arbitrary: i ips)
  case 0
  then have "i = length vs" by simp
  then show ?case using "0.prems" by (subst unmarshal_loop.simps) simp
next
  case (Suc k)
  then have i: "i < length vs" by linarith
  let ?data = "H @ concat vs @ tail"
  have len: "8 + 4 * length vs \<le> length ?data"
    using assms(1,2) by (simp add: length_concat_v4)
  have room: "\<not> length ?data < 8 + 4 * i + 4" using len i by linarith
  have chunk: "take 4 (drop (8 + 4 * i) ?data) = vs ! i"
    using assms(1,2) i by (rule chunk_at)
  have IH: "unmarshal_loop VRRPv2 ?data (length vs) (i + 1) (8 + 4 * (i + 1)) (ips[i := vs ! i])
      = (None, 8 + 4 * length vs, take (i + 1) (ips[i := vs ! i]) @ drop (i + 1) vs)"
    using Suc.hyps(2) Suc.prems i by (intro Suc.hyps(1)) simp_all
  have "take (i + 1) (ips[i := vs ! i]) @ drop (i + 1) vs = take i ips @ drop i vs"
    using i Suc.prems(2) by (simp add: take_Suc_conv_app_nth Cons_nth_drop_Suc)
  then show ?case
    using i room chunk IH
    by (subst unmarshal_loop.simps) (simp add: add.commute add.left_commute)
qed


subsection \<open>Round trip: the header\<close>

lemma version_nibble:
  "drop_bit 4 (push_bit 4 (2 :: byte) OR (t AND 0x0F)) AND 0x0F = 2"
proof -
  have m: "(0x0F :: byte) = mask 4" by (simp add: mask_eq_exp_minus_1)
  have "bit (drop_bit 4 (push_bit 4 (2 :: byte) OR (t AND mask 4)) AND mask 4) n = bit (2 :: byte) n" for n
    by (cases n rule: nat.exhaust; simp add: bit_simps) (auto simp: bit_simps numeral_eq_Suc bit_numeral_simps)
  then show ?thesis unfolding m by (simp add: bit_eq_iff)
qed


lemma type_nibble:
  "(push_bit 4 (2 :: byte) OR (t AND 0x0F)) AND 0x0F = t AND 0x0F"
proof -
  have "(push_bit 4 (2 :: byte) OR (t AND 0x0F)) AND 0x0F
      = (push_bit 4 (2 :: byte) AND 0x0F) OR ((t AND 0x0F) AND 0x0F)"
    by (rule bit.conj_disj_distrib2)
  also have "push_bit 4 (2 :: byte) AND 0x0F = 0" by simp
  also have "(t AND 0x0F) AND 0x0F = t AND 0x0F" by (simp add: and.assoc)
  finally show ?thesis by simp
qed

lemma low_nibble_id: "(t :: byte) < 16 \<Longrightarrow> t AND 0x0F = t"
proof -
  assume "t < 16"
  then have "t < 2 ^ 4" by simp
  then have "t AND mask 4 = t" by (rule less_mask_eq)
  then show ?thesis by (simp add: mask_eq_exp_minus_1)
qed

lemma header_bytes:
  assumes "8 \<le> m"
  shows "take 8 ((replicate m (0 :: byte))[0 := b0, 1 := b1, 2 := b2, 3 := b3, 4 := b4, 5 := b5])
     = [b0, b1, b2, b3, b4, b5, 0, 0]"
proof -
  obtain k where m: "m = 8 + k" using assms by (metis le_Suc_ex)
  have "replicate (8 + k) (0 :: byte) = [0, 0, 0, 0, 0, 0, 0, 0] @ replicate k 0"
    by (simp add: numeral_eq_Suc)
  then show ?thesis unfolding m by (simp add: list_update_append numeral_eq_Suc)
qed

lemma trailer_bytes:
  "drop (8 + n) ((replicate (8 + n + 8) (0 :: byte))[0 := b0, 1 := b1, 2 := b2, 3 := b3, 4 := b4, 5 := b5])
     = replicate 8 0"
  by (simp add: drop_update_cancel)

lemma marshal_ips_layout:
  assumes "\<forall>ip \<in> set ips. To4 ip \<noteq> None"
    and "length B = 8 + 4 * length ips + 8"
    and "take 8 B = H" and "drop (8 + 4 * length ips) B = T"
  shows "marshal_ips ips B 8 = (H @ concat (map (\<lambda>ip. the (To4 ip)) ips) @ T, 8 + 4 * length ips)"
  using marshal_ips_v4 [OF assms(1), of 8 B] assms(2,3,4) by simp

lemma copy_trailer:
  assumes "length H = 8" and "length body = n" and "length a = 8"
  shows "copy_bytes (H @ body @ replicate 8 0) (8 + n) a = H @ body @ a"
  using assms by (simp add: copy_bytes_def)

lemma Marshal_fill_v2:
  assumes "Version p = VRRPv2" and "\<forall>ip \<in> set (IPAddresses p). To4 ip \<noteq> None"
  shows "Marshal_fill p =
           [push_bit 4 (Version p) OR (Type p AND 0x0F), VRID p, Priority p, CountIPAddrs p,
            AuthType p, AdvInterval p, 0, 0]
           @ concat (map (\<lambda>ip. the (To4 ip)) (IPAddresses p))
           @ (if length (AuthData p) = 8 then AuthData p else replicate 8 0)"
proof -
  let ?n = "4 * length (IPAddresses p)"
  define B where "B = (replicate (8 + ?n + 8) (0 :: byte))
      [0 := push_bit 4 (Version p) OR (Type p AND 0x0F), 1 := VRID p, 2 := Priority p,
       3 := CountIPAddrs p, 4 := AuthType p, 5 := AdvInterval p]"
  define H where "H = [push_bit 4 (Version p) OR (Type p AND 0x0F), VRID p, Priority p,
      CountIPAddrs p, AuthType p, AdvInterval p, 0, 0]"
  define body where "body = concat (map (\<lambda>ip. the (To4 ip)) (IPAddresses p))"
  have fill: "Marshal_fill p =
      (case marshal_ips (IPAddresses p) B 8 of
         (buf, offset) \<Rightarrow>
           if length (AuthData p) = 8 then copy_bytes buf offset (AuthData p) else buf)"
    using assms(1) by (simp add: Marshal_fill_def Let_def B_def marshal_size_v4 [OF assms(2)])
  have lH: "length H = 8" by (simp add: H_def)
  have lb: "length body = ?n"
    unfolding body_def using assms(2)
    by (subst length_concat_v4) (auto dest!: bspec intro: To4_length)
  have lB: "length B = 8 + ?n + 8" by (simp add: B_def)
  have tB: "take 8 B = H" unfolding B_def H_def by (rule header_bytes) simp
  have dB: "drop (8 + ?n) B = replicate 8 0" unfolding B_def by (rule trailer_bytes)
  have m: "marshal_ips (IPAddresses p) B 8 = (H @ body @ replicate 8 0, 8 + ?n)"
    unfolding body_def using assms(2) lB tB dB by (rule marshal_ips_layout)
  have c: "copy_bytes (H @ body @ replicate 8 0) (8 + ?n) (AuthData p) = H @ body @ AuthData p"
    if "length (AuthData p) = 8"
    using lH lb that by (rule copy_trailer)
  show ?thesis
    unfolding fill m using c by (simp add: H_def body_def del: replicate_Suc)
qed


lemma PutUint16_header:
  "PutUint16 ([b0, b1, b2, b3, b4, b5, b6, b7] @ rest) 6 c
     = [b0, b1, b2, b3, b4, b5, ucast (drop_bit 8 c), ucast c] @ rest"
  by (simp add: PutUint16_def numeral_eq_Suc)

lemma trailer_at:
  assumes "length H = 8" and "length body = n" and "length tail = 8"
  shows "take 8 (drop (8 + n) (H @ body @ tail)) = tail"
  using assms by simp

lemma Unmarshal_layout:
  assumes "drop_bit 4 b0 AND 0x0F = VRRPv2"
    and "\<forall>v \<in> set vs. length v = 4" and "length tail = 8" and "unat b3 = length vs"
  shows "Unmarshal q ([b0, b1, b2, b3, b4, b5, b6, b7] @ concat vs @ tail)
       = (None, q\<lparr> Version := VRRPv2, Type := b0 AND 0x0F, VRID := b1, Priority := b2,
                    CountIPAddrs := b3, AuthType := b4, AdvInterval := b5,
                    Checksum := Uint16 ([b0, b1, b2, b3, b4, b5, b6, b7] @ concat vs @ tail) 6,
                    IPAddresses := vs, AuthData := tail \<rparr>)"
proof -
  let ?H = "[b0, b1, b2, b3, b4, b5, b6, b7]"
  let ?data = "?H @ concat vs @ tail"
  have lH: "length ?H = 8" by simp
  have "unmarshal_loop VRRPv2 ?data (length vs) 0 (8 + 4 * 0) (replicate (length vs) [])
      = (None, 8 + 4 * length vs, take 0 (replicate (length vs) []) @ drop 0 vs)"
    using lH assms(2) by (rule unmarshal_loop_v2) simp_all
  then have loop: "unmarshal_loop VRRPv2 ?data (length vs) 0 8 (replicate (length vs) [])
      = (None, 8 + 4 * length vs, vs)"
    by simp
  have len: "length ?data = 8 + 4 * length vs + 8"
    using assms(2,3) by (simp add: length_concat_v4)
  have tl: "take 8 (drop (8 + 4 * length vs) ?data) = tail"
    using lH length_concat_v4 [OF assms(2)] assms(3) by (rule trailer_at)
  have nth: "?data ! 0 = b0" "?data ! 1 = b1" "?data ! 2 = b2" "?data ! 3 = b3"
    "?data ! 4 = b4" "?data ! 5 = b5"
    by simp_all
  have loop': "unmarshal_loop VRRPv2 ?data (unat b3) 0 8 (replicate (unat b3) [])
      = (None, 8 + 4 * length vs, vs)"
    by (simp only: assms(4) loop)
  show ?thesis
    using loop' tl len assms(1,3) by (simp add: Unmarshal_def Let_def)
qed

text \<open>
  Claim C1. Let \<open>p\<close> be a version 2 packet whose type fits its four bits, whose
  addresses are all IPv4 and whose count byte equals their number. Then \<open>Marshal\<close>
  succeeds, and \<open>Unmarshal\<close> of the buffer, into any receiver, succeeds with the
  version, type, VRID, priority, count, authentication type and advertisement interval
  of \<open>p\<close>. The decoded addresses are the 4-byte forms of the addresses of \<open>p\<close>, each
  equal to its original in the sense of \<^verbatim>\<open>net.IP.Equal\<close>, and the very same list when
  \<open>p\<close> holds them in 4-byte form. The authentication data are those of \<open>p\<close> when
  \<open>p\<close> has eight bytes of them, and eight zero bytes otherwise.
\<close>

theorem marshal_unmarshal_roundtrip:
  assumes "Version p = VRRPv2" and "Type p < 16"
    and "\<forall>ip \<in> set (IPAddresses p). To4 ip \<noteq> None"
    and "unat (CountIPAddrs p) = length (IPAddresses p)"
  shows "\<exists>buf p'. Marshal p = Inr buf \<and> Unmarshal q buf = (None, p')
           \<and> Version p' = Version p \<and> Type p' = Type p \<and> VRID p' = VRID p
           \<and> Priority p' = Priority p \<and> CountIPAddrs p' = CountIPAddrs p
           \<and> AuthType p' = AuthType p \<and> AdvInterval p' = AdvInterval p
           \<and> IPAddresses p' = map (\<lambda>ip. the (To4 ip)) (IPAddresses p)
           \<and> list_all2 ip_Equal (IPAddresses p') (IPAddresses p)
           \<and> ((\<forall>ip \<in> set (IPAddresses p). length ip = 4) \<longrightarrow> IPAddresses p' = IPAddresses p)
           \<and> (length (AuthData p) = 8 \<longrightarrow> AuthData p' = AuthData p)
           \<and> (length (AuthData p) \<noteq> 8 \<longrightarrow> AuthData p' = replicate 8 0)"
proof -
  define b0 where "b0 = push_bit 4 (Version p) OR (Type p AND 0x0F)"
  define vs where "vs = map (\<lambda>ip. the (To4 ip)) (IPAddresses p)"
  define tail where "tail = (if length (AuthData p) = 8 then AuthData p else replicate 8 0)"
  define c where "c = projr (calculateChecksum (Marshal_fill p))"
  have fill: "Marshal_fill p
      = [b0, VRID p, Priority p, CountIPAddrs p, AuthType p, AdvInterval p, 0, 0] @ concat vs @ tail"
    unfolding b0_def vs_def tail_def using assms(1,3) by (rule Marshal_fill_v2)
  have m: "Marshal p = Inr (PutUint16 (Marshal_fill p) 6 c)"
    unfolding c_def using assms(1) by (simp add: Marshal_Inr)
  have buf: "PutUint16 (Marshal_fill p) 6 c
      = [b0, VRID p, Priority p, CountIPAddrs p, AuthType p, AdvInterval p,
         ucast (drop_bit 8 c), ucast c] @ concat vs @ tail"
    unfolding fill by (rule PutUint16_header)
  have v: "drop_bit 4 b0 AND 0x0F = VRRPv2"
    unfolding b0_def assms(1) VRRPv2_def by (rule version_nibble)
  have "b0 AND 0x0F = Type p AND 0x0F"
    unfolding b0_def assms(1) VRRPv2_def by (rule type_nibble)
  also have "\<dots> = Type p"
    using assms(2) by (rule low_nibble_id)
  finally have t: "b0 AND 0x0F = Type p" .
  have l4: "\<forall>v \<in> set vs. length v = 4"
    unfolding vs_def using assms(3) by (auto dest!: bspec intro: To4_length)
  have lt: "length tail = 8" by (simp add: tail_def)
  have n: "unat (CountIPAddrs p) = length vs" by (simp add: vs_def assms(4))
  have eq: "list_all2 ip_Equal vs (IPAddresses p)"
    unfolding vs_def list_all2_map1 using assms(3)
    by (auto simp: list_all2_same intro: ip_Equal_To4)
  have same: "vs = IPAddresses p" if "\<forall>ip \<in> set (IPAddresses p). length ip = 4"
    unfolding vs_def using that by (simp add: To4_def map_idI)
  note u = Unmarshal_layout [OF v l4 lt n, of q "VRID p" "Priority p" "AuthType p" "AdvInterval p"
      "ucast (drop_bit 8 c)" "ucast c"]
  show ?thesis
    unfolding m buf
    by (rule exI, rule exI, rule conjI [OF refl], rule conjI [OF u])
      (simp add: t assms(1) vs_def [symmetric] eq same tail_def)
qed

theorem marshal_unmarshal_roundtrip_witness:
  "Version TestPacketMarshalUnmarshal_original = VRRPv2
   \<and> Type TestPacketMarshalUnmarshal_original < 16
   \<and> IPAddresses TestPacketMarshalUnmarshal_original = [[192, 168, 1, 100], [192, 168, 1, 101]]
   \<and> To4 [192, 168, 1, 100] = Some [192, 168, 1, 100]
   \<and> To4 [192, 168, 1, 101] = Some [192, 168, 1, 101]
   \<and> unat (CountIPAddrs TestPacketMarshalUnmarshal_original)
       = length (IPAddresses TestPacketMarshalUnmarshal_original)
   \<and> (\<exists>buf p'. Marshal TestPacketMarshalUnmarshal_original = Inr buf
         \<and> Unmarshal zero_Packet buf = (None, p')
         \<and> Version p' = 2 \<and> Type p' = 1 \<and> VRID p' = 10 \<and> Priority p' = 150
         \<and> CountIPAddrs p' = 2 \<and> AdvInterval p' = 1
         \<and> IPAddresses p' = [[192, 168, 1, 100], [192, 168, 1, 101]])"
proof -
  let ?p = TestPacketMarshalUnmarshal_original
  have a: "Version ?p = VRRPv2" and b: "Type ?p < 16"
    and i: "IPAddresses ?p = [[192, 168, 1, 100], [192, 168, 1, 101]]"
    and d: "unat (CountIPAddrs ?p) = length (IPAddresses ?p)"
    by (simp_all add: TestPacketMarshalUnmarshal_original_def NewPacket_def TypeAdvertisement_def)
  have t: "To4 [192, 168, 1, 100] = Some [192, 168, 1, 100]"
    "To4 [192, 168, 1, 101] = Some [192, 168, 1, 101]"
    by (simp_all add: To4_def)
  have c: "\<forall>ip \<in> set (IPAddresses ?p). To4 ip \<noteq> None"
    by (simp add: i t)
  have f: "Version ?p = 2" "Type ?p = 1" "VRID ?p = 10" "Priority ?p = 150"
    "CountIPAddrs ?p = 2" "AdvInterval ?p = 1"
    by (simp_all add: TestPacketMarshalUnmarshal_original_def NewPacket_def TypeAdvertisement_def
        VRRPv2_def)
  from marshal_unmarshal_roundtrip [OF a b c d, of zero_Packet]
  obtain buf p' where r: "Marshal ?p = Inr buf" "Unmarshal zero_Packet buf = (None, p')"
    "Version p' = Version ?p" "Type p' = Type ?p" "VRID p' = VRID ?p"
    "Priority p' = Priority ?p" "CountIPAddrs p' = CountIPAddrs ?p"
    "AdvInterval p' = AdvInterval ?p"
    "IPAddresses p' = map (\<lambda>ip. the (To4 ip)) (IPAddresses ?p)"
    by blast
  have "IPAddresses p' = [[192, 168, 1, 100], [192, 168, 1, 101]]"
    by (simp add: r(9) i t)
  then have "\<exists>buf p'. Marshal ?p = Inr buf
         \<and> Unmarshal zero_Packet buf = (None, p')
         \<and> Version p' = 2 \<and> Type p' = 1 \<and> VRID p' = 10 \<and> Priority p' = 150
         \<and> CountIPAddrs p' = 2 \<and> AdvInterval p' = 1
         \<and> IPAddresses p' = [[192, 168, 1, 100], [192, 168, 1, 101]]"
    using r f by (intro exI [of _ buf] exI [of _ p']) simp
  then show ?thesis using a b i t d by (intro conjI) assumption+
qed

section \<open>Properties of the IP manager\<close>

lemma ip_Equal_refl [simp]: "ip_Equal ip ip"
  by (simp add: ip_Equal_def)


lemma same_addr_refl [simp]: "same_addr a a"
  by (simp add: same_addr_def)













section \<open>Properties of the state machine\<close>

subsection \<open>Frame lemmas for the address loops\<close>

lemma acquire_loop_fields [simp]:
  "state (acquire_loop sm ips) = state sm"
  "sendCh (acquire_loop sm ips) = sendCh sm"
  "advertTimer (acquire_loop sm ips) = advertTimer sm"
  "masterDownTimer (acquire_loop sm ips) = masterDownTimer sm"
  "advertisementInterval (acquire_loop sm ips) = advertisementInterval sm"
  "masterDownInterval (acquire_loop sm ips) = masterDownInterval sm"
  "vrid (acquire_loop sm ips) = vrid sm"
  "priority (acquire_loop sm ips) = priority sm"
  "virtualIPs (acquire_loop sm ips) = virtualIPs sm"
  "onStateChange (acquire_loop sm ips) = onStateChange sm"
  by (induction ips arbitrary: sm; simp split: option.splits)+

lemma release_loop_fields [simp]:
  "state (release_loop sm ips) = state sm"
  "sendCh (release_loop sm ips) = sendCh sm"
  "advertTimer (release_loop sm ips) = advertTimer sm"
  "masterDownTimer (release_loop sm ips) = masterDownTimer sm"
  "advertisementInterval (release_loop sm ips) = advertisementInterval sm"
  "masterDownInterval (release_loop sm ips) = masterDownInterval sm"
  "vrid (release_loop sm ips) = vrid sm"
  "priority (release_loop sm ips) = priority sm"
  "virtualIPs (release_loop sm ips) = virtualIPs sm"
  "onStateChange (release_loop sm ips) = onStateChange sm"
  by (induction ips arbitrary: sm; simp split: option.splits)+

lemma acquire_loop_logged:
  "logged (acquire_loop sm ips) =
     logged sm @ map (\<lambda>ip. case addIP sm ip of
                              Some err \<Rightarrow> LogFailedToAdd ip err
                            | None \<Rightarrow> LogAdded ip (Name (iface sm))) ips"
  by (induction ips arbitrary: sm) (simp_all add: addIP_def)

lemma release_loop_logged:
  "logged (release_loop sm ips) =
     logged sm @ map (\<lambda>ip. case delIP sm ip of
                              Some err \<Rightarrow> LogFailedToRemove ip err
                            | None \<Rightarrow> LogRemoved ip (Name (iface sm))) ips"
  by (induction ips arbitrary: sm) (simp_all add: delIP_def)

lemma byte_less_255: "(x :: byte) < 255 \<longleftrightarrow> x \<noteq> 255"
proof -
  have "unat x < 256" using unsigned_less [of x, where 'a = nat] by simp
  moreover have "x = 255 \<longleftrightarrow> unat x = 255"
    by (simp add: word_unat_eq_iff)
  ultimately show ?thesis by (simp add: word_less_nat_alt) linarith
qed

lemma byte_greater_nonzero: "(a :: byte) < b \<Longrightarrow> b \<noteq> 0"
  by (auto simp: word_less_nat_alt)

subsection \<open>Transition to the current state\<close>

text \<open>
  Claim C10. Calling \<open>transition\<close> with the state the machine is already in returns the
  machine as it was: the state, both timers, the channels and the log of address
  operations are unchanged, and no call to the observer is recorded.
\<close>

theorem transition_same_state_noop:
  "transition sm (state sm) = sm"
  by (simp add: transition_def)

theorem transition_same_state_noop_witness:
  "state TestPacketHandling_sm = Master
   \<and> transition TestPacketHandling_sm Master = TestPacketHandling_sm"
  using transition_same_state_noop [of TestPacketHandling_sm]
  by (simp add: TestPacketHandling_sm_def)

subsection \<open>Packets of another virtual router\<close>

text \<open>
  Claim C8. A packet whose VRID differs from the machine's is dropped before anything
  else is looked at: \<open>handlePacket\<close> returns, and returns the machine unchanged in
  every field, so the state, both timers and the channels are as before, nothing is
  logged, no address operation is tried and no event or advertisement is queued.
\<close>

theorem foreign_vrid_discarded:
  "VRID pkt \<noteq> vrid sm \<Longrightarrow> handlePacket sm pkt = Some sm"
  by (simp add: handlePacket_def)

theorem foreign_vrid_discarded_witness:
  "VRID wrongVRID \<noteq> vrid TestPacketHandling_sm
   \<and> handlePacket TestPacketHandling_sm wrongVRID = Some TestPacketHandling_sm"
proof -
  have h: "VRID wrongVRID \<noteq> vrid TestPacketHandling_sm"
    by (simp add: wrongVRID_def TestPacketHandling_sm_def NewStateMachine_def)
  show ?thesis using h foreign_vrid_discarded [OF h] by simp
qed

subsection \<open>Startup\<close>

text \<open>
  The state machine's \<open>addIP\<close> and \<open>delIP\<close> never succeed: whatever the machine and
  the address, they answer with the error that IP management is not implemented.
\<close>

lemma addIP_never_succeeds: "addIP sm ip = Some IPManagementNotImplemented"
  by (simp add: addIP_def)

lemma delIP_never_succeeds: "delIP sm ip = Some IPManagementNotImplemented"
  by (simp add: delIP_def)

text \<open>
  Handling the Startup event in Init state. With priority 255 the machine is Master when
  the handler returns; it has tried to add every virtual address, and every attempt has
  failed and is logged as failed; it has queued an advertisement (when the send channel
  has room, as it has on a new machine) and armed the advert timer with the
  advertisement interval; no timer is consulted on the way and the master-down timer is
  left as it was. With a priority below 255 the machine is Backup with the master-down
  timer armed with the master-down interval, and sends nothing.
\<close>

lemma handleEvent_Startup_from_Init:
  assumes "state sm = Init"
  shows "(priority sm = 255 \<longrightarrow>
            state (handleEvent sm EventStartup) = Master
          \<and> advertTimer (handleEvent sm EventStartup) = Some (advertisementInterval sm)
          \<and> masterDownTimer (handleEvent sm EventStartup) = masterDownTimer sm
          \<and> sendCh (handleEvent sm EventStartup) =
              (if length (sendCh sm) < chanCap
               then sendCh sm @ [NewPacket VRRPv2 (vrid sm) (priority sm) (virtualIPs sm)]
               else sendCh sm)
          \<and> logged (handleEvent sm EventStartup) =
              logged sm @ [LogStateTransition (vrid sm) Init Master]
                @ map (\<lambda>ip. LogFailedToAdd ip IPManagementNotImplemented) (virtualIPs sm)
                @ (if length (sendCh sm) < chanCap then [] else [LogSendChannelFull])
                @ (case onStateChange sm of Some fn \<Rightarrow> fn Init Master | None \<Rightarrow> []))
       \<and> (priority sm < 255 \<longrightarrow>
            state (handleEvent sm EventStartup) = Backup
          \<and> masterDownTimer (handleEvent sm EventStartup) = Some (masterDownInterval sm)
          \<and> advertTimer (handleEvent sm EventStartup) = advertTimer sm
          \<and> sendCh (handleEvent sm EventStartup) = sendCh sm)"
proof (intro conjI impI)
  assume p: "priority sm = 255"
  let ?sm' = "handleEvent sm EventStartup"
  show "state ?sm' = Master"
    using assms p
    by (simp add: transition_def Let_def startAdvertTimer_def stopAdvertTimer_def
        sendAdvertisement_def acquireVirtualIPs_def split: option.splits)
  show "advertTimer ?sm' = Some (advertisementInterval sm)"
    using assms p
    by (simp add: transition_def Let_def startAdvertTimer_def stopAdvertTimer_def
        sendAdvertisement_def acquireVirtualIPs_def split: option.splits)
  show "masterDownTimer ?sm' = masterDownTimer sm"
    using assms p
    by (simp add: transition_def Let_def startAdvertTimer_def stopAdvertTimer_def
        sendAdvertisement_def acquireVirtualIPs_def split: option.splits)
  show "sendCh ?sm' =
          (if length (sendCh sm) < chanCap
           then sendCh sm @ [NewPacket VRRPv2 (vrid sm) (priority sm) (virtualIPs sm)]
           else sendCh sm)"
    using assms p
    by (simp add: transition_def Let_def startAdvertTimer_def stopAdvertTimer_def
        sendAdvertisement_def acquireVirtualIPs_def split: option.splits)
  show "logged ?sm' =
          logged sm @ [LogStateTransition (vrid sm) Init Master]
            @ map (\<lambda>ip. LogFailedToAdd ip IPManagementNotImplemented) (virtualIPs sm)
            @ (if length (sendCh sm) < chanCap then [] else [LogSendChannelFull])
            @ (case onStateChange sm of Some fn \<Rightarrow> fn Init Master | None \<Rightarrow> [])"
    using assms p
    by (simp add: transition_def Let_def startAdvertTimer_def stopAdvertTimer_def
        sendAdvertisement_def acquireVirtualIPs_def acquire_loop_logged addIP_def
        split: option.splits)
next
  assume "priority sm < 255"
  then have p: "priority sm \<noteq> 255" by (simp add: byte_less_255)
  let ?sm' = "handleEvent sm EventStartup"
  show "state ?sm' = Backup"
    using assms p
    by (simp add: transition_def Let_def startMasterDownTimer_def stopMasterDownTimer_def
        split: option.splits)
  show "masterDownTimer ?sm' = Some (masterDownInterval sm)"
    using assms p
    by (simp add: transition_def Let_def startMasterDownTimer_def stopMasterDownTimer_def
        split: option.splits)
  show "advertTimer ?sm' = advertTimer sm"
    using assms p
    by (simp add: transition_def Let_def startMasterDownTimer_def stopMasterDownTimer_def
        split: option.splits)
  show "sendCh ?sm' = sendCh sm"
    using assms p
    by (simp add: transition_def Let_def startMasterDownTimer_def stopMasterDownTimer_def
        split: option.splits)
qed

text \<open>
  Claim C4, at an address owner with the virtual address 192.168.1.100. Handling
  Startup brings the machine from Init to Master at once, queues the advertisement and
  arms the advert timer with one second, as the claim says. It does not acquire the
  address: the one call of \<open>addIP\<close> returns the error, and the log holds the failed
  attempt and no added address.
\<close>

theorem startup_acquires_no_address:
  "state address_owner_sm = Init
   \<and> priority address_owner_sm = 255
   \<and> virtualIPs address_owner_sm = [IPv4 192 168 1 100]
   \<and> state (handleEvent address_owner_sm EventStartup) = Master
   \<and> advertTimer (handleEvent address_owner_sm EventStartup) = Some Second
   \<and> masterDownTimer (handleEvent address_owner_sm EventStartup) = None
   \<and> sendCh (handleEvent address_owner_sm EventStartup)
       = [NewPacket VRRPv2 1 255 [IPv4 192 168 1 100]]
   \<and> addIP address_owner_sm (IPv4 192 168 1 100) = Some IPManagementNotImplemented
   \<and> logged (handleEvent address_owner_sm EventStartup)
       = [LogStateTransition 1 Init Master,
          LogFailedToAdd (IPv4 192 168 1 100) IPManagementNotImplemented]"
  by (simp add: address_owner_sm_def NewStateMachine_def transition_def Let_def
      startAdvertTimer_def stopAdvertTimer_def sendAdvertisement_def acquireVirtualIPs_def
      addIP_def chanCap_def)

subsection \<open>Advertisements received as Master\<close>

text \<open>
  A strictly higher priority makes the Master yield: it stops the advert timer, tries to
  remove every virtual address (each attempt fails in \<open>delIP\<close> and is logged as
  failed), becomes Backup and arms the master-down timer.
\<close>

lemma master_yields_to_higher_priority:
  assumes "state sm = Master" "VRID pkt = vrid sm" "priority sm < Priority pkt"
  shows "\<exists>sm'. handlePacket sm pkt = Some sm'
           \<and> state sm' = Backup
           \<and> advertTimer sm' = None
           \<and> masterDownTimer sm' = Some (masterDownInterval sm)
           \<and> sendCh sm' = sendCh sm
           \<and> logged sm' =
               logged sm @ [LogStateTransition (vrid sm) Master Backup]
                 @ map (\<lambda>ip. LogFailedToRemove ip IPManagementNotImplemented) (virtualIPs sm)
                 @ (case onStateChange sm of Some fn \<Rightarrow> fn Master Backup | None \<Rightarrow> [])"
proof -
  have nz: "Priority pkt \<noteq> 0" using assms(3) by (rule byte_greater_nonzero)
  show ?thesis
    using assms nz
    by (simp add: handlePacket_def transition_def Let_def stopAdvertTimer_def
        releaseVirtualIPs_def startMasterDownTimer_def stopMasterDownTimer_def
        release_loop_logged delIP_def split: option.splits)
qed

text \<open>
  On an equal priority the outcome rests on \<open>compareSourceIP\<close>, which is constantly
  0 (lines 470 to 472): the machine keeps its state whatever the addresses are.
\<close>

lemma master_keeps_state_on_equal_priority:
  assumes "state sm = Master" "VRID pkt = vrid sm" "Priority pkt = priority sm" "Priority pkt \<noteq> 0"
  shows "handlePacket sm pkt = Some sm"
  using assms by (simp add: handlePacket_def compareSourceIP_def)

text \<open>
  Claim C3, at the input of \<^verbatim>\<open>TestPacketHandling\<close> for a lost tie-break: the machine
  is Master with VRID 10 and priority 100, the packet has the same VRID and priority and
  carries the address 10.0.0.200, above the machine's 10.0.0.100. The comparison
  answers 0 and the machine stays Master, unchanged.
\<close>

theorem equal_priority_higher_source_stays_master:
  "VRID samePriorityHigher = vrid TestPacketHandling_sm
   \<and> Priority samePriorityHigher = priority TestPacketHandling_sm
   \<and> state TestPacketHandling_sm = Master
   \<and> compareSourceIP TestPacketHandling_sm samePriorityHigher = 0
   \<and> handlePacket TestPacketHandling_sm samePriorityHigher = Some TestPacketHandling_sm"
  by (simp add: handlePacket_def compareSourceIP_def samePriorityHigher_def
      TestPacketHandling_sm_def NewStateMachine_def)

subsection \<open>Intervals\<close>

text \<open>
  A new machine has an advertisement interval of one second, whose whole milliseconds
  divided by 256 are 3, so its skew time is \<open>(256 - priority) * 3\<close> milliseconds.
\<close>

lemma NewStateMachine_masterDownInterval:
  "masterDownInterval (NewStateMachine v p ips ifc) = 3 * Second + (256 - uint p) * 3 * Millisecond"
  by (simp add: NewStateMachine_def calculateMasterDownInterval_def Milliseconds_def
      Second_def Millisecond_def)

text \<open>
  Claim C5, at priority 100: the source divides the interval's milliseconds by 256 before
  it multiplies, which gives 3 s + 156 * 3 ms = 3.468 s, where the product taken first
  gives 3 s + 156 s / 256 = 3.609375 s (3.609 s when counted in whole milliseconds, 3 s
  in whole seconds).
\<close>

theorem master_down_interval_divides_first:
  "priority (NewStateMachine 1 100 [IPv4 192 168 1 100] test0) = 100
   \<and> advertisementInterval (NewStateMachine 1 100 [IPv4 192 168 1 100] test0) = Second
   \<and> calculateMasterDownInterval (NewStateMachine 1 100 [IPv4 192 168 1 100] test0) = 3468000000
   \<and> documented_master_down_interval 100 Second = 3609375000
   \<and> documented_master_down_interval 100 (Milliseconds Second) * Millisecond = 3609000000
   \<and> documented_master_down_interval 100 1 * Second = 3000000000"
  by (simp add: NewStateMachine_def calculateMasterDownInterval_def Milliseconds_def
      Second_def Millisecond_def documented_master_down_interval_def documented_skew_time_def)

text \<open>
  Whatever the configuration says, the machine a started router holds has the interval
  of one second, and arms its advert timer with it on becoming Master.
\<close>

lemma started_machine_interval:
  assumes "VirtualRouter_Start vr (Inr network) = Some (None, vr')"
  shows "\<exists>sm. vr_stateMachine vr' = Some sm \<and> advertisementInterval sm = Second
          \<and> advertTimer (transition sm Master) = Some Second"
  using assms
  by (auto simp: VirtualRouter_Start_def Let_def StateMachine_Start_def SetStateChangeCallback_def
      NewStateMachine_def chanCap_def transition_def startAdvertTimer_def stopAdvertTimer_def
      sendAdvertisement_def acquireVirtualIPs_def
      split: if_splits option.splits)

text \<open>
  Claim C6, at the README's configuration with an advertisement interval of 3: the
  router starts, and its state machine has an advertisement interval of one second, a
  master-down interval built on one second, and an advert timer of one second on
  becoming Master.
\<close>

theorem configured_interval_not_used:
  "cfg_AdvInterval readme_config = 3
   \<and> map_option (\<lambda>(err, vr). (err, map_option
          (\<lambda>sm. (advertisementInterval sm, masterDownInterval sm, advertTimer (transition sm Master)))
          (vr_stateMachine vr)))
        (VirtualRouter_Start (projr (NewVirtualRouter readme_ParseIP readme_config)) (Inr readme_network))
      = Some (None, Some (1 * Second, 3 * (1 * Second) + 468 * Millisecond, Some (1 * Second)))"
  by (simp add: readme_config_def readme_ParseIP_def readme_network_def NewVirtualRouter_def
      IPv4_def To4_def v4InV6Prefix_def VRRPv2_def
      VirtualRouter_Start_def Let_def StateMachine_Start_def SetStateChangeCallback_def
      NewStateMachine_def chanCap_def transition_def startAdvertTimer_def stopAdvertTimer_def
      sendAdvertisement_def acquireVirtualIPs_def addIP_def calculateMasterDownInterval_def
      Milliseconds_def Second_def Millisecond_def)

end
